theory Spec2Isabelle
  imports Complex_Main "HOL-Library.Product_Lexorder" "HOL-Library.Multiset"
begin

section \<open>The number guessing game of \<open>number_guess.py\<close>\<close>

text \<open>
  The program is a single Python file: a leaderboard kept in \<open>scores.json\<close>
  (\<open>load_scores\<close>, \<open>save_score\<close>, \<open>show_leaderboard\<close>), a reader of integers from the
  terminal (\<open>ask_int\<close>), the difficulty menu (\<open>choose_difficulty\<close>) and one round of the
  game (\<open>play_round\<close>). Each function is embedded below under its own name.

  Conventions of the embedding:
  \<^item> Python's unbounded \<open>int\<close> is \<open>int\<close>. A time in seconds (a Python \<open>float\<close>) is
    the rational number it denotes, \<open>rat\<close>: finite floats are ordered as their values
    are, and the sort of \<open>save_score\<close> only compares them.
  \<^item> A Python \<open>str\<close> is the list of its code points, each a \<open>nat\<close>. The character
    tables of \<open>str.strip\<close>, \<open>str.isdigit\<close> and \<open>int()\<close> are written out in full.
  \<^item> Everything taken from outside the program is explicit: the lines waiting on
    standard input, the state of the backing file, the reading of the clock, the draw
    of the random source.
  \<^item> An exception that leaves a function is a value: \<open>Raise e\<close>.
\<close>

subsection \<open>Text\<close>

text \<open>
  A Python \<open>str\<close> is the list of its code points; \<open>str ''abc''\<close> is a literal of the
  source.
\<close>

type_synonym pystr = "nat list"

definition str :: "string \<Rightarrow> pystr" where
  "str s = map of_char s"

subsection \<open>Score records and the backing file\<close>

text \<open>The dictionary that \<open>save_score\<close> appends, under its five keys.\<close>

record score =
  name :: pystr
  attempts :: int
  time_taken :: rat
  difficulty :: pystr
  timestamp :: int

text \<open>
  The backing file as \<open>load_scores\<close> sees it: \<open>Absent\<close> when \<open>os.path.exists\<close> is false,
  \<open>Corrupt\<close> when opening or \<open>json.load\<close> raises, \<open>Stored scores\<close> when it parses to the
  list of records \<open>scores\<close>. \<open>json.dump\<close> followed by \<open>json.load\<close> gives back the list
  of records written, so the file is taken to hold the list itself.
\<close>

datatype scores_file = Absent | Corrupt | Stored "score list"

text \<open>
  \<open>round(time_taken, 2)\<close>: the nearest multiple of \<open>1/100\<close>, a tie going to the even
  one, as Python rounds.
\<close>

definition round2 :: "rat \<Rightarrow> rat" where
  "round2 t =
     (let n = \<lfloor>t * 100\<rfloor>; r = t * 100 - of_int n
      in if r < 1 / 2 then of_int n / 100
         else if 1 / 2 < r then of_int (n + 1) / 100
         else if even n then of_int n / 100
         else of_int (n + 1) / 100)"

definition load_scores :: "scores_file \<Rightarrow> score list" where
  "load_scores f = (case f of Absent \<Rightarrow> [] | Corrupt \<Rightarrow> [] | Stored scores \<Rightarrow> scores)"

text \<open>The key of the sort: \<open>lambda s: (s["attempts"], s["time_taken"])\<close>.\<close>

definition score_key :: "score \<Rightarrow> int \<times> rat" where
  "score_key s = (attempts s, time_taken s)"

text \<open>
  \<open>save_score(name, attempts, time_taken, difficulty)\<close>, with \<open>now\<close> the value of
  \<open>int(time.time())\<close> and the file passed through. Python's \<open>sorted\<close> is stable and
  compares the key tuples lexicographically, which is \<open>sort_key\<close> on pairs.
\<close>

definition save_score ::
  "int \<Rightarrow> pystr \<Rightarrow> int \<Rightarrow> rat \<Rightarrow> pystr \<Rightarrow> scores_file \<Rightarrow> scores_file" where
  "save_score now nm att tt diff f =
     (let scores = load_scores f;
          scores = scores @ [\<lparr>name = nm, attempts = att, time_taken = round2 tt,
                              difficulty = diff, timestamp = now\<rparr>];
          scores = take 20 (sort_key score_key scores)
      in Stored scores)"

subsection \<open>The terminal\<close>

text \<open>
  An exception leaving a function: \<open>EOFError\<close> from \<open>input\<close> when standard input is
  exhausted, \<open>ValueError\<close> from \<open>int()\<close> and from \<open>random.randint\<close>.
\<close>

datatype py_error = EOFError | ValueError

datatype 'a result = Return 'a | Raise py_error

datatype hint = Higher | Lower

datatype closeness = NoQualifier | VeryClose | Close

text \<open>
  What the program writes to the terminal, one constructor for each \<open>print\<close> of the
  source with the values it interpolates, and \<open>Prompt\<close> for the prompt that \<open>input\<close>
  writes. \<open>EnterAnInteger r\<close> is \<open>Enter an integer{rng}.\<close>, where \<open>r\<close> is the pair of
  bounds when both are given; \<open>Nope h c\<close> is \<open>Nope - try {hint}.{closeness}\<close>;
  \<open>NoLeaderboard\<close> is \<open>No leaderboard yet - be the first!\<close>.
\<close>

datatype message =
    Prompt pystr
  | PleaseEnterValue
  | EnterAnInteger "(int \<times> int) option"
  | NotAnInteger
  | DifficultyMenu
  | UpperBoundNotGreater
  | InvalidChoice
  | Picked int int int
  | Nope hint closeness
  | Correct int
  | Summary int rat pystr
  | OutOfAttempts int
  | BlankLine
  | NoLeaderboard
  | LeaderboardHeader
  | Row nat score
  | LeaderboardFooter

text \<open>
  The world the program runs in: the lines not yet read from standard input, what has
  been written to the terminal so far, and the backing file \<open>scores.json\<close>.
\<close>

record world =
  stdin :: "pystr list"
  stdout :: "message list"
  scores_json :: scores_file

definition print :: "message \<Rightarrow> world \<Rightarrow> world" where
  "print x w = w\<lparr>stdout := stdout w @ [x]\<rparr>"

text \<open>\<open>input(prompt)\<close>: writes the prompt, then takes the next line or raises at end of input.\<close>

definition input :: "pystr \<Rightarrow> world \<Rightarrow> pystr result \<times> world" where
  "input prompt w =
     (case stdin w of
        [] \<Rightarrow> (Raise EOFError, print (Prompt prompt) w)
      | line # rest \<Rightarrow> (Return line, (print (Prompt prompt) w)\<lparr>stdin := rest\<rparr>))"

subsection \<open>Character tables and conversions\<close>

text \<open>
  The character tables of Python, from the Unicode database that Python 3.11 carries
  (Unicode 14.0). \<open>isspace\<close> holds for the characters that \<open>str.strip\<close> removes.
  \<open>decimal_zeros\<close> lists the digit zero of every script: the ten code points from each
  are its decimal digits 0 to 9, the characters that \<open>int()\<close> reads and for which
  \<open>str.isdecimal\<close> holds. \<open>str.isdigit\<close> holds for these and for the further digits of
  \<open>other_digits\<close> (superscripts, subscripts, circled digits and the like, as inclusive
  ranges), which \<open>int()\<close> rejects.
\<close>

definition isspace :: "nat \<Rightarrow> bool" where
  "isspace c =
     (c \<in> set [9, 10, 11, 12, 13, 28, 29, 30, 31, 32, 133, 160, 5760, 8192, 8193, 8194, 8195,
                8196, 8197, 8198, 8199, 8200, 8201, 8202, 8232, 8233, 8239, 8287, 12288])"

definition decimal_zeros :: "nat list" where
  "decimal_zeros =
     [48, 1632, 1776, 1984, 2406, 2534, 2662, 2790, 2918, 3046, 3174, 3302, 3430, 3558, 3664,
      3792, 3872, 4160, 4240, 6112, 6160, 6470, 6608, 6784, 6800, 6992, 7088, 7232, 7248,
      42528, 43216, 43264, 43472, 43504, 43600, 44016, 65296, 66720, 68912, 69734, 69872,
      69942, 70096, 70384, 70736, 70864, 71248, 71360, 71472, 71904, 72016, 72784, 73040,
      73120, 92768, 92864, 93008, 120782, 120792, 120802, 120812, 120822, 123200, 123632,
      125264, 130032]"

text \<open>The value of a decimal digit, \<open>None\<close> for every other character.\<close>

definition decimal_digit :: "nat \<Rightarrow> nat option" where
  "decimal_digit c =
     (case filter (\<lambda>z. z \<le> c \<and> c < z + 10) decimal_zeros of
        [] \<Rightarrow> None
      | z # _ \<Rightarrow> Some (c - z))"

definition isdecimal_char :: "nat \<Rightarrow> bool" where
  "isdecimal_char c = (decimal_digit c \<noteq> None)"

definition other_digits :: "(nat \<times> nat) list" where
  "other_digits =
     [(178, 179), (185, 185), (4969, 4977), (6618, 6618), (8304, 8304), (8308, 8313),
      (8320, 8329), (9312, 9320), (9332, 9340), (9352, 9360), (9450, 9450), (9461, 9469),
      (9471, 9471), (10102, 10110), (10112, 10120), (10122, 10130), (68160, 68163),
      (69216, 69224), (69714, 69722), (127232, 127242)]"

definition isdigit_char :: "nat \<Rightarrow> bool" where
  "isdigit_char c = (isdecimal_char c \<or> list_ex (\<lambda>(lo, hi). lo \<le> c \<and> c \<le> hi) other_digits)"

definition strip :: "pystr \<Rightarrow> pystr" where
  "strip s = rev (dropWhile isspace (rev (dropWhile isspace s)))"

text \<open>\<open>str.isdigit\<close>: at least one character, and every character a digit.\<close>

definition isdigit :: "pystr \<Rightarrow> bool" where
  "isdigit s = (s \<noteq> [] \<and> list_all isdigit_char s)"

text \<open>\<open>val.startswith("-")\<close>; \<open>val[1:]\<close> is \<open>drop 1 val\<close>.\<close>

definition startswith_minus :: "pystr \<Rightarrow> bool" where
  "startswith_minus s = (take 1 s = str ''-'')"

definition decimal_value :: "pystr \<Rightarrow> nat" where
  "decimal_value ds =
     foldl (\<lambda>acc c. 10 * acc + (case decimal_digit c of None \<Rightarrow> 0 | Some d \<Rightarrow> d)) 0 ds"

text \<open>
  \<open>int(val)\<close> on the texts that reach it in \<open>ask_int\<close> (an optional minus sign, then
  characters): the value when every character after the sign is a decimal digit and
  there are no more than 4300 of them (the default limit of Python 3.11 on the digits
  of a decimal text), \<open>ValueError\<close> otherwise.
\<close>

definition py_int :: "pystr \<Rightarrow> int result" where
  "py_int val =
     (let ds = (if startswith_minus val then drop 1 val else val)
      in if ds \<noteq> [] \<and> list_all isdecimal_char ds \<and> length ds \<le> 4300
         then Return (if startswith_minus val then - int (decimal_value ds)
                      else int (decimal_value ds))
         else Raise ValueError)"

text \<open>\<open>str(n)\<close> for an integer, used by the prompt of a guess.\<close>

fun str_nat :: "nat \<Rightarrow> pystr" where
  "str_nat n =
     (if n < 10 then [48 + n]
      else str_nat (n div 10) @ [48 + n mod 10])"

definition str_int :: "int \<Rightarrow> pystr" where
  "str_int i = (if i < 0 then str ''-'' @ str_nat (nat (- i)) else str_nat (nat i))"

subsection \<open>\<open>ask_int\<close>\<close>

text \<open>\<open>(minv is not None and n < minv) or (maxv is not None and n > maxv)\<close>\<close>

definition out_of_range :: "int option \<Rightarrow> int option \<Rightarrow> int \<Rightarrow> bool" where
  "out_of_range minv maxv n =
     ((case minv of None \<Rightarrow> False | Some lo \<Rightarrow> n < lo) \<or>
      (case maxv of None \<Rightarrow> False | Some hi \<Rightarrow> hi < n))"

definition rng :: "int option \<Rightarrow> int option \<Rightarrow> (int \<times> int) option" where
  "rng minv maxv =
     (case minv of
        None \<Rightarrow> None
      | Some lo \<Rightarrow> (case maxv of None \<Rightarrow> None | Some hi \<Rightarrow> Some (lo, hi)))"

text \<open>
  The loop of \<open>ask_int\<close>. Every iteration reads one line, so the recursion is on the
  lines left; at the end of input \<open>input\<close> raises. A \<open>ValueError\<close> of \<open>int(val)\<close> is not
  caught by the source and leaves the function.
\<close>

function ask_int :: "pystr \<Rightarrow> int option \<Rightarrow> int option \<Rightarrow> world \<Rightarrow> int result \<times> world" where
  "ask_int prompt minv maxv w =
     (case input prompt w of
        (Raise e, w1) \<Rightarrow> (Raise e, w1)
      | (Return line, w1) \<Rightarrow>
          (let val = strip line in
           if val = [] then ask_int prompt minv maxv (print PleaseEnterValue w1)
           else if isdigit val \<or> (startswith_minus val \<and> isdigit (drop 1 val)) then
             (case py_int val of
                Raise e \<Rightarrow> (Raise e, w1)
              | Return n \<Rightarrow>
                  if out_of_range minv maxv n
                  then ask_int prompt minv maxv (print (EnterAnInteger (rng minv maxv)) w1)
                  else (Return n, w1))
           else ask_int prompt minv maxv (print NotAnInteger w1)))"
  by pat_completeness auto
termination
  by (relation "measure (\<lambda>(prompt, minv, maxv, w). length (stdin w))")
     (auto simp: input_def print_def split: list.splits)

declare ask_int.simps [simp del]

text \<open>A call of \<open>ask_int\<close> never puts lines back on standard input.\<close>

lemma ask_int_stdin_length:
  "length (stdin (snd (ask_int prompt minv maxv w))) \<le> length (stdin w)"
proof (induction prompt minv maxv w rule: ask_int.induct)
  case (1 prompt minv maxv w)
  show ?case
  proof (cases "stdin w")
    case Nil
    then show ?thesis
      by (subst ask_int.simps) (simp add: input_def print_def)
  next
    case (Cons line rest)
    then have inp: "input prompt w = (Return line, (print (Prompt prompt) w)\<lparr>stdin := rest\<rparr>)"
      by (simp add: input_def)
    note IH = "1.IH"[OF inp[symmetric] refl refl]
    show ?thesis
      using IH Cons
      by (subst ask_int.simps)
         (auto simp: inp Let_def print_def split: result.splits)
  qed
qed

subsection \<open>\<open>choose_difficulty\<close>\<close>

text \<open>
  The loop of \<open>choose_difficulty\<close>, entered after the menu is printed. Choice 4 asks for
  the two bounds and goes round the whole loop again when the upper bound is not
  greater than the lower one.
\<close>

function choose_difficulty_loop :: "world \<Rightarrow> (pystr \<times> int \<times> int \<times> int) result \<times> world" where
  "choose_difficulty_loop w =
     (case input (str ''Enter 1/2/3/4: '') w of
        (Raise e, w1) \<Rightarrow> (Raise e, w1)
      | (Return line, w1) \<Rightarrow>
          (let choice = strip line in
           if choice = (str ''1'') then (Return ((str ''Easy''), 1, 10, 6), w1)
           else if choice = (str ''2'') then (Return ((str ''Medium''), 1, 50, 7), w1)
           else if choice = (str ''3'') then (Return ((str ''Hard''), 1, 100, 8), w1)
           else if choice = (str ''4'') then
             (case ask_int (str ''Enter lower bound (integer): '') None None w1 of
                (Raise e, w2) \<Rightarrow> (Raise e, w2)
              | (Return low, w2) \<Rightarrow>
                  (case ask_int (str ''Enter upper bound (integer, > lower): '') None None w2 of
                     (Raise e, w3) \<Rightarrow> (Raise e, w3)
                   | (Return high, w3) \<Rightarrow>
                       if high \<le> low
                       then choose_difficulty_loop (print UpperBoundNotGreater w3)
                       else
                         (case ask_int (str ''Enter max attempts (>=1): '') (Some 1) None w3 of
                            (Raise e, w4) \<Rightarrow> (Raise e, w4)
                          | (Return max_attempts, w4) \<Rightarrow>
                              (Return ((str ''Custom''), low, high, max_attempts), w4))))
           else choose_difficulty_loop (print InvalidChoice w1)))"
  by pat_completeness auto
termination
proof (relation "measure (\<lambda>w. length (stdin w))", goal_cases)
  case 1
  show ?case by simp
next
  case (2 w x1 x2 line choice y1 y2 low z1 z2 high)
  have a: "length (stdin x2) < length (stdin w)"
    using 2 by (auto simp: input_def print_def split: list.splits)
  have b: "length (stdin y2) \<le> length (stdin x2)"
    using ask_int_stdin_length[of "(str ''Enter lower bound (integer): '')" None None x2] 2 
    by (metis snd_conv)
  have c: "length (stdin z2) \<le> length (stdin y2)"
    using ask_int_stdin_length[of "(str ''Enter upper bound (integer, > lower): '')" None None y2] 2
    by (metis snd_conv)
  show ?case using a b c by (simp add: print_def)
next
  case (3 w x1 x2 line choice)
  then show ?case
    by (auto simp: input_def print_def split: list.splits)
qed

declare choose_difficulty_loop.simps [simp del]

definition choose_difficulty :: "world \<Rightarrow> (pystr \<times> int \<times> int \<times> int) result \<times> world" where
  "choose_difficulty w = choose_difficulty_loop (print DifficultyMenu w)"

subsection \<open>\<open>play_round\<close>\<close>

text \<open>The prompt of a guess: \<open>[Attempt {attempts}/{max_attempts}] Your guess: \<close>.\<close>

definition guess_prompt :: "int \<Rightarrow> int \<Rightarrow> pystr" where
  "guess_prompt used max_attempts =
     (str ''[Attempt '') @ str_int used @ (str ''/'') @ str_int max_attempts @ (str ''] Your guess: '')"

text \<open>The hint and the closeness computed for a guess that is not the secret.\<close>

definition hint_of :: "int \<Rightarrow> int \<Rightarrow> hint" where
  "hint_of secret guess = (if guess < secret then Higher else Lower)"

definition closeness_of :: "int \<Rightarrow> int \<Rightarrow> int \<Rightarrow> int \<Rightarrow> closeness" where
  "closeness_of low high secret guess =
     (let diff = \<bar>secret - guess\<bar>
      in if diff = 0 then NoQualifier
         else if diff \<le> max 1 ((high - low) div 20) then VeryClose
         else if diff \<le> max 1 ((high - low) div 5) then Close
         else NoQualifier)"

text \<open>
  The loop \<open>while attempts < max_attempts\<close>; \<open>used\<close> is the counter \<open>attempts\<close> of the
  source. It returns the flag \<open>guessed\<close> and the counter.
\<close>

function guess_loop ::
  "int \<Rightarrow> int \<Rightarrow> int \<Rightarrow> int \<Rightarrow> int \<Rightarrow> world \<Rightarrow> (bool \<times> int) result \<times> world" where
  "guess_loop low high max_attempts secret used w =
     (if used < max_attempts then
        (case ask_int (guess_prompt (used + 1) max_attempts) (Some low) (Some high) w of
           (Raise e, w1) \<Rightarrow> (Raise e, w1)
         | (Return guess, w1) \<Rightarrow>
             if guess = secret then (Return (True, used + 1), w1)
             else guess_loop low high max_attempts secret (used + 1)
                    (print (Nope (hint_of secret guess) (closeness_of low high secret guess)) w1))
      else (Return (False, used), w))"
  by pat_completeness auto
termination
  by (relation "measure (\<lambda>(low, high, max_attempts, secret, used, w). nat (max_attempts - used))")
     auto

declare guess_loop.simps [simp del]

text \<open>
  \<open>play_round(name)\<close>. The random source is the function \<open>randint\<close>, \<open>elapsed\<close> is
  \<open>time.time() - start\<close> and \<open>now\<close> the clock read by \<open>save_score\<close>.
  \<open>random.randint(low, high)\<close> raises \<open>ValueError\<close> on an empty range. The name is asked
  for when the argument is \<open>None\<close> or empty, and an empty answer becomes \<open>Anon\<close>.
\<close>

definition ask_name :: "pystr option \<Rightarrow> world \<Rightarrow> pystr result \<times> world" where
  "ask_name nm w =
     (if (case nm of None \<Rightarrow> True | Some given \<Rightarrow> given = []) then
        (case input (str ''Enter your name for the leaderboard (or press Enter to stay anonymous): '') w of
           (Raise e, w1) \<Rightarrow> (Raise e, w1)
         | (Return line, w1) \<Rightarrow> (Return (if strip line = [] then (str ''Anon'') else strip line), w1))
      else (Return (case nm of None \<Rightarrow> [] | Some given \<Rightarrow> given), w))"

definition play_round ::
  "(int \<Rightarrow> int \<Rightarrow> int) \<Rightarrow> rat \<Rightarrow> int \<Rightarrow> pystr option \<Rightarrow> world
     \<Rightarrow> (bool \<times> int \<times> rat \<times> pystr) result \<times> world" where
  "play_round randint elapsed now nm w =
     (case choose_difficulty w of
        (Raise e, w1) \<Rightarrow> (Raise e, w1)
      | (Return (label, low, high, max_attempts), w1) \<Rightarrow>
          if high < low then (Raise ValueError, w1)
          else
            (let secret = randint low high in
             case guess_loop low high max_attempts secret 0
                    (print (Picked low high max_attempts) w1) of
               (Raise e, w2) \<Rightarrow> (Raise e, w2)
             | (Return (guessed, used), w2) \<Rightarrow>
                 if guessed then
                   (case ask_name nm
                           (print (Summary used (round2 elapsed) label)
                              (print (Correct secret) w2)) of
                      (Raise e, w3) \<Rightarrow> (Raise e, w3)
                    | (Return player, w3) \<Rightarrow>
                        (Return (guessed, used, elapsed, label),
                         print BlankLine
                           (w3\<lparr>scores_json :=
                                 save_score now player used elapsed label (scores_json w3)\<rparr>)))
                 else
                   (Return (guessed, used, elapsed, label),
                    print BlankLine (print (OutOfAttempts secret) w2))))"

subsection \<open>\<open>show_leaderboard\<close>\<close>

text \<open>
  \<open>show_leaderboard()\<close>: the message for an empty list, or the header, one row for each
  record numbered from 1, and the footer.
\<close>

definition show_leaderboard :: "world \<Rightarrow> world" where
  "show_leaderboard w =
     (let scores = load_scores (scores_json w)
      in if scores = [] then print NoLeaderboard w
         else print LeaderboardFooter
                (foldl (\<lambda>w' (i, s). print (Row i s) w')
                   (print LeaderboardHeader w)
                   (zip [1 ..< Suc (length scores)] scores)))"

subsection \<open>Notions used to state the properties\<close>

text \<open>
  The arguments of one call of \<open>save_score\<close> (clock, name, attempts, time taken,
  difficulty), the record that the call appends, and a sequence of calls one after
  the other.
\<close>

type_synonym save_args = "int \<times> pystr \<times> int \<times> rat \<times> pystr"

definition new_score :: "save_args \<Rightarrow> score" where
  "new_score c =
     (case c of (now, nm, att, tt, diff) \<Rightarrow>
        \<lparr>name = nm, attempts = att, time_taken = round2 tt, difficulty = diff, timestamp = now\<rparr>)"

fun save_all :: "save_args list \<Rightarrow> scores_file \<Rightarrow> scores_file" where
  "save_all [] f = f"
| "save_all ((now, nm, att, tt, diff) # cs) f = save_all cs (save_score now nm att tt diff f)"

text \<open>Call number \<open>i\<close> of a run of saves whose \<open>attempts\<close> is \<open>i\<close>, everything else free.\<close>

definition nth_save ::
  "(nat \<Rightarrow> int) \<Rightarrow> (nat \<Rightarrow> pystr) \<Rightarrow> (nat \<Rightarrow> rat) \<Rightarrow> (nat \<Rightarrow> pystr) \<Rightarrow> nat \<Rightarrow> save_args" where
  "nth_save now nm tt diff i = (now i, nm i, int i, tt i, diff i)"

text \<open>
  The specification's wording of an accepted text: an optional leading minus,
  otherwise all digits, a digit being a decimal digit of any script (the characters
  with a digit value 0 to 9, which are the ones an integer can be written with).
\<close>

definition spec_integer_text :: "pystr \<Rightarrow> bool" where
  "spec_integer_text s =
     (let body = (if take 1 s = str ''-'' then drop 1 s else s)
      in body \<noteq> [] \<and> list_all (\<lambda>c. decimal_digit c \<noteq> None) body)"


section \<open>Literals\<close>

lemma str_Nil [simp]: "str [] = []"
  by (simp add: str_def)

lemma str_Cons [simp]: "str (c # cs) = of_char c # str cs"
  by (simp add: str_def)

text \<open>The definitions that the evaluation of a concrete run unfolds.\<close>

lemmas run_defs =
  print_def input_def strip_def isspace_def isdigit_def isdigit_char_def isdecimal_char_def
  other_digits_def decimal_digit_def decimal_zeros_def py_int_def startswith_minus_def
  decimal_value_def out_of_range_def rng_def Let_def guess_prompt_def str_int_def hint_of_def
  closeness_of_def choose_difficulty_def ask_name_def play_round_def save_score_def

section \<open>Properties of the score store\<close>

lemma sorted_take_sort_key:
  "sorted (map f (take n (sort_key f xs)))"
proof -
  have "sorted (take n (map f (sort_key f xs)))"
    by (rule sorted_wrt_take) (rule sorted_sort_key)
  then show ?thesis
    by (simp add: take_map)
qed

text \<open>
  Claim C1. Whatever the backing file held and whatever record is saved, the file left
  by \<open>save_score\<close> holds at most 20 records, in ascending order of
  \<open>(attempts, time_taken)\<close>.
\<close>

theorem save_score_bounded_sorted:
  "length (load_scores (save_score now nm att tt diff f)) \<le> 20 \<and>
   sorted (map score_key (load_scores (save_score now nm att tt diff f)))"
  by (simp add: save_score_def load_scores_def Let_def sorted_take_sort_key)

subsection \<open>Saving and loading again\<close>

lemma load_save_score:
  "load_scores (save_score now nm att tt diff f) =
     take 20 (sort_key score_key (load_scores f @ [new_score (now, nm, att, tt, diff)]))"
  by (simp add: save_score_def load_scores_def new_score_def Let_def)

lemma mset_load_save_all:
  "length (load_scores f) + length cs \<le> 20 \<Longrightarrow>
   mset (load_scores (save_all cs f)) = mset (load_scores f) + mset (map new_score cs)"
proof (induction cs arbitrary: f)
  case Nil
  then show ?case by simp
next
  case (Cons c cs)
  obtain now nm att tt diff where c: "c = (now, nm, att, tt, diff)"
    by (cases c) auto
  let ?g = "save_score now nm att tt diff f"
  have len: "length (load_scores f) < 20"
    using Cons.prems by simp
  then have load: "load_scores ?g = sort_key score_key (load_scores f @ [new_score c])"
    by (simp add: load_save_score c)
  then have "length (load_scores ?g) = Suc (length (load_scores f))"
    by simp
  then have "mset (load_scores (save_all cs ?g)) = mset (load_scores ?g) + mset (map new_score cs)"
    using Cons.prems by (intro Cons.IH) simp
  then show ?case
    by (simp add: c load)
qed

lemma sorted_load_save_all:
  "sorted (map score_key (load_scores f)) \<Longrightarrow>
   sorted (map score_key (load_scores (save_all cs f)))"
proof (induction cs arbitrary: f)
  case Nil
  then show ?case by simp
next
  case (Cons c cs)
  obtain now nm att tt diff where c: "c = (now, nm, att, tt, diff)"
    by (cases c) auto
  have "sorted (map score_key (load_scores (save_score now nm att tt diff f)))"
    by (simp add: load_save_score sorted_take_sort_key)
  then show ?case
    by (simp add: c Cons.IH)
qed

text \<open>
  Claim C2. After at most 20 saves that start from an absent file, loading gives exactly
  the records saved, each with its five fields (the time rounded to two decimals), in
  ascending order of \<open>(attempts, time_taken)\<close>.
\<close>

theorem save_then_load_roundtrip:
  assumes "length cs \<le> 20"
  shows "mset (load_scores (save_all cs Absent)) = mset (map new_score cs) \<and>
         length (load_scores (save_all cs Absent)) = length cs \<and>
         sorted (map score_key (load_scores (save_all cs Absent)))"
proof -
  have m: "mset (load_scores (save_all cs Absent)) = mset (map new_score cs)"
    using assms mset_load_save_all[of Absent cs] by (simp add: load_scores_def)
  have "size (mset (load_scores (save_all cs Absent))) = size (mset (map new_score cs))"
    by (simp only: m)
  then have l: "length (load_scores (save_all cs Absent)) = length cs"
    by simp
  have s: "sorted (map score_key (load_scores (save_all cs Absent)))"
    by (rule sorted_load_save_all) (simp add: load_scores_def)
  show ?thesis
    using m l s by simp
qed

theorem save_then_load_roundtrip_witness:
  "length ([(10, (str ''ann''), 5, 31 / 10, (str ''Easy'')), (20, (str ''bob''), 3, 7, (str ''Hard'')),
           (30, (str ''cy''), 3, 1255 / 1000, (str ''Custom''))] :: save_args list) \<le> 20 \<and>
   load_scores (save_all [(10, (str ''ann''), 5, 31 / 10, (str ''Easy'')), (20, (str ''bob''), 3, 7, (str ''Hard'')),
           (30, (str ''cy''), 3, 1255 / 1000, (str ''Custom''))] Absent) =
     [\<lparr>name = (str ''cy''), attempts = 3, time_taken = 63 / 50, difficulty = (str ''Custom''), timestamp = 30\<rparr>,
      \<lparr>name = (str ''bob''), attempts = 3, time_taken = 7, difficulty = (str ''Hard''), timestamp = 20\<rparr>,
      \<lparr>name = (str ''ann''), attempts = 5, time_taken = 31 / 10, difficulty = (str ''Easy''), timestamp = 10\<rparr>] \<and>
   sorted (map score_key (load_scores (save_all [(10, (str ''ann''), 5, 31 / 10, (str ''Easy'')), (20, (str ''bob''), 3, 7, (str ''Hard'')),
           (30, (str ''cy''), 3, 1255 / 1000, (str ''Custom''))] Absent)))"
proof -
  have h: "length ([(10, (str ''ann''), 5, 31 / 10, (str ''Easy'')), (20, (str ''bob''), 3, 7, (str ''Hard'')),
           (30, (str ''cy''), 3, 1255 / 1000, (str ''Custom''))] :: save_args list) \<le> 20"
    by simp
  have e: "load_scores (save_all [(10, (str ''ann''), 5, 31 / 10, (str ''Easy'')), (20, (str ''bob''), 3, 7, (str ''Hard'')),
           (30, (str ''cy''), 3, 1255 / 1000, (str ''Custom''))] Absent) =
     [\<lparr>name = (str ''cy''), attempts = 3, time_taken = 63 / 50, difficulty = (str ''Custom''), timestamp = 30\<rparr>,
      \<lparr>name = (str ''bob''), attempts = 3, time_taken = 7, difficulty = (str ''Hard''), timestamp = 20\<rparr>,
      \<lparr>name = (str ''ann''), attempts = 5, time_taken = 31 / 10, difficulty = (str ''Easy''), timestamp = 10\<rparr>]"
    by code_simp
  show ?thesis
    using h e save_then_load_roundtrip[OF h] by simp
qed

subsection \<open>Twenty-five saves\<close>

lemma sort_key_snoc_id:
  "sorted (map f xs) \<Longrightarrow> (\<And>x. x \<in> set xs \<Longrightarrow> f x \<le> f y) \<Longrightarrow>
   sort_key f (xs @ [y]) = xs @ [y]"
  by (rule sort_key_id_if_sorted) (simp add: sorted_append)

lemma attempts_new_score [simp]: "attempts (new_score (nth_save now nm tt diff i)) = int i"
  by (simp add: new_score_def nth_save_def)

lemma save_all_append: "save_all (xs @ ys) f = save_all ys (save_all xs f)"
  by (induction xs arbitrary: f) auto

lemma increasing_saves:
  assumes "load_scores f = []"
  shows "load_scores (save_all (map (nth_save now nm tt diff) [1 ..< Suc n]) f) =
           map (\<lambda>i. new_score (nth_save now nm tt diff i)) [1 ..< Suc (min n 20)]"
proof (induction n)
  case 0
  show ?case using assms by simp
next
  case (Suc n)
  let ?r = "\<lambda>i. new_score (nth_save now nm tt diff i)"
  let ?prev = "save_all (map (nth_save now nm tt diff) [1 ..< Suc n]) f"
  have step: "load_scores (save_all (map (nth_save now nm tt diff) [1 ..< Suc (Suc n)]) f) =
      take 20 (sort_key score_key (load_scores ?prev @ [?r (Suc n)]))"
  proof -
    have "[1 ..< Suc (Suc n)] = [1 ..< Suc n] @ [Suc n]"
      by simp
    then have "save_all (map (nth_save now nm tt diff) [1 ..< Suc (Suc n)]) f =
        save_all [nth_save now nm tt diff (Suc n)] ?prev"
      by (simp only: map_append save_all_append list.map)
    also have "\<dots> = save_score (now (Suc n)) (nm (Suc n)) (int (Suc n)) (tt (Suc n))
                          (diff (Suc n)) ?prev"
      by (simp add: nth_save_def)
    finally show ?thesis
      by (simp only: load_save_score nth_save_def)
  qed
  have srt: "sorted (map score_key (map ?r [1 ..< Suc (min n 20)]))"
    by (simp add: sorted_map sorted_wrt_map score_key_def less_eq_prod_def
          sorted_wrt_iff_nth_less del: upt_Suc)
  have le: "\<And>x. x \<in> set (map ?r [1 ..< Suc (min n 20)]) \<Longrightarrow> score_key x \<le> score_key (?r (Suc n))"
    by (auto simp: score_key_def less_eq_prod_def)
  have "sort_key score_key (map ?r [1 ..< Suc (min n 20)] @ [?r (Suc n)]) =
        map ?r [1 ..< Suc (min n 20)] @ [?r (Suc n)]"
    using srt le by (rule sort_key_snoc_id)
  then have "load_scores (save_all (map (nth_save now nm tt diff) [1 ..< Suc (Suc n)]) f) =
      take 20 (map ?r [1 ..< Suc (min n 20)] @ [?r (Suc n)])"
    by (simp only: step Suc.IH)
  also have "\<dots> = map ?r [1 ..< Suc (min (Suc n) 20)]"
  proof (cases "n < 20")
    case True
    then have "length (map ?r [1 ..< Suc (min n 20)] @ [?r (Suc n)]) \<le> 20"
      by simp
    then have "take 20 (map ?r [1 ..< Suc (min n 20)] @ [?r (Suc n)]) =
               map ?r [1 ..< Suc (min n 20)] @ [?r (Suc n)]"
      by (rule take_all)
    also have "\<dots> = map ?r [1 ..< Suc (min (Suc n) 20)]"
      using True by simp
    finally show ?thesis .
  next
    case False
    then have "length (map ?r [1 ..< Suc (min n 20)]) = 20"
      by simp
    then have "take 20 (map ?r [1 ..< Suc (min n 20)] @ [?r (Suc n)]) =
               map ?r [1 ..< Suc (min n 20)]"
      by (simp only: take_append take_all order_refl diff_self_eq_0 take_0 append_Nil2)
    also have "\<dots> = map ?r [1 ..< Suc (min (Suc n) 20)]"
      using False by simp
    finally show ?thesis .
  qed
  finally show ?case .
qed

text \<open>
  Claim C7. From an empty store, 25 saves whose \<open>attempts\<close> are 1, 2, ..., 25 in this
  order (all other arguments arbitrary) leave exactly the 20 records with attempts 1 to
  20, so those with attempts 21 to 25 are absent.
\<close>

theorem twenty_five_increasing_saves:
  assumes "load_scores f = []"
  shows "load_scores (save_all (map (nth_save now nm tt diff) [1 ..< 26]) f) =
           map (\<lambda>i. new_score (nth_save now nm tt diff i)) [1 ..< 21] \<and>
         map attempts (load_scores (save_all (map (nth_save now nm tt diff) [1 ..< 26]) f)) =
           map int [1 ..< 21]"
proof -
  have "load_scores (save_all (map (nth_save now nm tt diff) [1 ..< Suc 25]) f) =
           map (\<lambda>i. new_score (nth_save now nm tt diff i)) [1 ..< Suc (min 25 20)]"
    using assms by (rule increasing_saves)
  then have a: "load_scores (save_all (map (nth_save now nm tt diff) [1 ..< 26]) f) =
           map (\<lambda>i. new_score (nth_save now nm tt diff i)) [1 ..< 21]"
    by simp
  have b: "map attempts (load_scores (save_all (map (nth_save now nm tt diff) [1 ..< 26]) f)) =
           map int [1 ..< 21]"
    by (simp only: a map_map comp_def attempts_new_score)
  show ?thesis
    using a b by (rule conjI)
qed

theorem twenty_five_increasing_saves_witness:
  "load_scores Absent = [] \<and>
   map attempts (load_scores (save_all
      (map (nth_save (\<lambda>i. 1000 + int i) (\<lambda>i. (str ''Player'')) (\<lambda>i. 30 - of_nat i) (\<lambda>i. (str ''Hard'')))
         [1 ..< 26]) Absent)) = map int [1 ..< 21]"
proof -
  have h: "load_scores Absent = []"
    by (simp add: load_scores_def)
  show ?thesis
    using h twenty_five_increasing_saves[OF h] by simp
qed

subsection \<open>A save that does not persist its record\<close>

lemma filter_less_takeWhile:
  "sorted (map f xs) \<Longrightarrow> filter (\<lambda>x. f x < k) xs = takeWhile (\<lambda>x. f x < k) xs"
proof (induction xs)
  case Nil
  then show ?case by simp
next
  case (Cons x xs)
  show ?case
  proof (cases "f x < k")
    case True
    then show ?thesis using Cons by simp
  next
    case False
    have "\<And>y. y \<in> set xs \<Longrightarrow> \<not> f y < k"
      using Cons.prems False by fastforce
    then have "filter (\<lambda>x. f x < k) xs = []"
      by (simp add: filter_empty_conv)
    then show ?thesis using False by simp
  qed
qed

lemma take_below_takeWhile:
  "n \<le> length (takeWhile P xs) \<Longrightarrow> x \<in> set (take n xs) \<Longrightarrow> P x"
proof -
  assume n: "n \<le> length (takeWhile P xs)" and x: "x \<in> set (take n xs)"
  have "take n xs = take n (takeWhile P xs @ dropWhile P xs)"
    by simp
  also have "\<dots> = take n (takeWhile P xs)"
    using n by (simp del: takeWhile_dropWhile_id)
  finally have "x \<in> set (takeWhile P xs)"
    using x by (auto dest: in_set_takeD)
  then show "P x"
    by (rule set_takeWhileD[THEN conjunct2])
qed

lemma length_filter_sort_key:
  "length (filter P (sort_key f xs)) = length (filter P xs)"
proof -
  have "mset (filter P (sort_key f xs)) = mset (filter P xs)"
    by simp
  then show ?thesis
    by (rule mset_eq_length)
qed

text \<open>
  Claim C10. The store after a save is the first 20 of the prior records plus the new
  record, sorted by \<open>(attempts, time_taken)\<close>; hence when 20 prior records sort strictly
  before the new record, the new record is not in the store.
\<close>

theorem save_score_may_drop_new_record:
  "load_scores (save_score now nm att tt diff f) =
     take 20 (sort_key score_key (load_scores f @ [new_score (now, nm, att, tt, diff)])) \<and>
   (20 \<le> length (filter (\<lambda>s. score_key s < score_key (new_score (now, nm, att, tt, diff)))
                   (load_scores f)) \<longrightarrow>
    new_score (now, nm, att, tt, diff) \<notin> set (load_scores (save_score now nm att tt diff f)))"
proof (intro conjI impI)
  let ?new = "new_score (now, nm, att, tt, diff)"
  let ?P = "\<lambda>s. score_key s < score_key ?new"
  let ?L = "sort_key score_key (load_scores f @ [?new])"
  show eq: "load_scores (save_score now nm att tt diff f) = take 20 ?L"
    by (rule load_save_score)
  assume many: "20 \<le> length (filter ?P (load_scores f))"
  have "length (filter ?P ?L) = length (filter ?P (load_scores f @ [?new]))"
    by (rule length_filter_sort_key)
  also have "\<dots> = length (filter ?P (load_scores f))"
    by simp
  finally have "20 \<le> length (filter ?P ?L)"
    using many by simp
  moreover have "filter ?P ?L = takeWhile ?P ?L"
    by (rule filter_less_takeWhile) (rule sorted_sort_key)
  ultimately have len: "20 \<le> length (takeWhile ?P ?L)"
    by simp
  show "?new \<notin> set (load_scores (save_score now nm att tt diff f))"
  proof
    assume "?new \<in> set (load_scores (save_score now nm att tt diff f))"
    then have "?new \<in> set (take 20 ?L)"
      by (simp only: eq)
    with len have "?P ?new"
      by (rule take_below_takeWhile)
    then show False
      by simp
  qed
qed

theorem save_score_may_drop_new_record_witness:
  "20 \<le> length (filter (\<lambda>s. score_key s < score_key (new_score (5, (str ''bo''), 2, 1 / 2, (str ''Hard''))))
       (load_scores (Stored (replicate 20
          \<lparr>name = (str ''al''), attempts = 1, time_taken = 1, difficulty = (str ''Easy''), timestamp = 0\<rparr>)))) \<and>
   new_score (5, (str ''bo''), 2, 1 / 2, (str ''Hard'')) \<notin>
     set (load_scores (save_score 5 (str ''bo'') 2 (1 / 2) (str ''Hard'') (Stored (replicate 20
          \<lparr>name = (str ''al''), attempts = 1, time_taken = 1, difficulty = (str ''Easy''), timestamp = 0\<rparr>))))"
proof -
  have h: "20 \<le> length (filter (\<lambda>s. score_key s < score_key (new_score (5, (str ''bo''), 2, 1 / 2, (str ''Hard''))))
       (load_scores (Stored (replicate 20
          \<lparr>name = (str ''al''), attempts = 1, time_taken = 1, difficulty = (str ''Easy''), timestamp = 0\<rparr>))))"
    by (simp add: load_scores_def score_key_def new_score_def)
  show ?thesis
    using h save_score_may_drop_new_record[THEN conjunct2, THEN mp, OF h] by simp
qed

section \<open>Properties of \<open>ask_int\<close>\<close>

lemma stdin_print [simp]: "stdin (print x w) = stdin w"
  by (simp add: print_def)

lemma scores_json_print [simp]: "scores_json (print x w) = scores_json w"
  by (simp add: print_def)

lemma stdout_print [simp]: "stdout (print x w) = stdout w @ [x]"
  by (simp add: print_def)

lemma input_Nil: "stdin w = [] \<Longrightarrow> input prompt w = (Raise EOFError, print (Prompt prompt) w)"
  by (simp add: input_def)

lemma input_Cons:
  "stdin w = line # rest \<Longrightarrow>
   input prompt w = (Return line, (print (Prompt prompt) w)\<lparr>stdin := rest\<rparr>)"
  by (simp add: input_def)

lemma ask_int_Nil:
  "stdin w = [] \<Longrightarrow> ask_int prompt minv maxv w = (Raise EOFError, print (Prompt prompt) w)"
  by (subst ask_int.simps) (simp add: input_Nil)

lemma ask_int_Cons:
  "stdin w = line # rest \<Longrightarrow>
   ask_int prompt minv maxv w =
     (let w1 = (print (Prompt prompt) w)\<lparr>stdin := rest\<rparr>; val = strip line in
      if val = [] then ask_int prompt minv maxv (print PleaseEnterValue w1)
      else if isdigit val \<or> (startswith_minus val \<and> isdigit (drop 1 val)) then
        (case py_int val of
           Raise e \<Rightarrow> (Raise e, w1)
         | Return n \<Rightarrow>
             if out_of_range minv maxv n
             then ask_int prompt minv maxv (print (EnterAnInteger (rng minv maxv)) w1)
             else (Return n, w1))
      else ask_int prompt minv maxv (print NotAnInteger w1))"
  by (subst ask_int.simps) (simp add: input_Cons Let_def)

lemma ask_int_accepts:
  "stdin w = ls \<Longrightarrow> ask_int prompt minv maxv w = (Return n, w') \<Longrightarrow>
   \<not> out_of_range minv maxv n \<and>
   (\<exists>skipped line. stdin w = skipped @ line # stdin w' \<and> py_int (strip line) = Return n)"
proof (induction ls arbitrary: w)
  case Nil
  then show ?case by (simp add: ask_int_Nil)
next
  case (Cons line rest)
  let ?w1 = "(print (Prompt prompt) w)\<lparr>stdin := rest\<rparr>"
  note unf = ask_int_Cons[OF Cons.prems(1), of prompt minv maxv]
  have later: "\<And>x. ask_int prompt minv maxv (print x ?w1) = (Return n, w') \<Longrightarrow> ?case"
  proof -
    fix x assume r: "ask_int prompt minv maxv (print x ?w1) = (Return n, w')"
    have "stdin (print x ?w1) = rest" by simp
    from Cons.IH[OF this r] obtain skipped l where
      "\<not> out_of_range minv maxv n" "rest = skipped @ l # stdin w'" "py_int (strip l) = Return n"
      by auto
    then have "stdin w = (line # skipped) @ l # stdin w'"
      using Cons.prems(1) by simp
    then show ?case
      using \<open>\<not> out_of_range minv maxv n\<close> \<open>py_int (strip l) = Return n\<close> by blast
  qed
  show ?case
  proof (cases "strip line = []")
    case True
    then show ?thesis using Cons.prems(2) later by (simp add: unf Let_def)
  next
    case ne: False
    show ?thesis
    proof (cases "isdigit (strip line) \<or> (startswith_minus (strip line) \<and> isdigit (drop 1 (strip line)))")
      case False
      then have "ask_int prompt minv maxv w = ask_int prompt minv maxv (print NotAnInteger ?w1)"
        using ne by (simp only: unf Let_def if_False)
      then show ?thesis using Cons.prems(2) later by simp
    next
      case guard: True
      show ?thesis
      proof (cases "py_int (strip line)")
        case (Raise e)
        then show ?thesis using Cons.prems(2) ne guard by (simp add: unf Let_def)
      next
        case (Return m)
        show ?thesis
        proof (cases "out_of_range minv maxv m")
          case True
          then show ?thesis using Cons.prems(2) later ne guard Return by (simp add: unf Let_def)
        next
          case False
          then have "n = m" "w' = ?w1"
            using Cons.prems(2) ne guard Return by (simp_all add: unf Let_def)
          then have "stdin w = [] @ line # stdin w'"
            using Cons.prems(1) by simp
          then show ?thesis
            using False Return \<open>n = m\<close> by blast
        qed
      qed
    qed
  qed
qed

lemma py_int_spec_text: "py_int s = Return n \<Longrightarrow> spec_integer_text s"
  by (auto simp: py_int_def spec_integer_text_def startswith_minus_def Let_def list_all_iff
        isdecimal_char_def split: if_splits)

lemma ask_int_frame_aux:
  "stdin w = ls \<Longrightarrow>
   scores_json (snd (ask_int prompt minv maxv w)) = scores_json w \<and>
   (\<exists>skipped. ls = skipped @ stdin (snd (ask_int prompt minv maxv w)))"
proof (induction ls arbitrary: w)
  case Nil
  then show ?case by (simp add: ask_int_Nil)
next
  case (Cons line rest)
  let ?w1 = "(print (Prompt prompt) w)\<lparr>stdin := rest\<rparr>"
  note unf = ask_int_Cons[OF Cons.prems, of prompt minv maxv]
  have later: "scores_json (snd (ask_int prompt minv maxv (print x ?w1))) = scores_json w \<and>
      (\<exists>skipped. line # rest = skipped @ stdin (snd (ask_int prompt minv maxv (print x ?w1))))" for x
  proof -
    have "stdin (print x ?w1) = rest" by simp
    from Cons.IH[OF this, of ] obtain skipped where
      "scores_json (snd (ask_int prompt minv maxv (print x ?w1))) = scores_json (print x ?w1)"
      "rest = skipped @ stdin (snd (ask_int prompt minv maxv (print x ?w1)))"
      by blast
    then have "scores_json (snd (ask_int prompt minv maxv (print x ?w1))) = scores_json w"
      and "line # rest = (line # skipped) @ stdin (snd (ask_int prompt minv maxv (print x ?w1)))"
      by simp_all
    then show ?thesis by blast
  qed
  have now: "scores_json ?w1 = scores_json w \<and> (\<exists>skipped. line # rest = skipped @ stdin ?w1)"
    by simp
  show ?case
    unfolding unf Let_def
    using later now by (simp split: result.split)
qed

lemma ask_int_scores_json:
  "ask_int prompt minv maxv w = (r, w') \<Longrightarrow> scores_json w' = scores_json w"
  using ask_int_frame_aux[OF refl, where w = w and prompt = prompt and minv = minv and maxv = maxv]
  by simp

lemma ask_int_stdin_suffix:
  "ask_int prompt minv maxv w = (r, w') \<Longrightarrow> \<exists>skipped. stdin w = skipped @ stdin w'"
  using ask_int_frame_aux[OF refl, where w = w and prompt = prompt and minv = minv and maxv = maxv]
  by simp

text \<open>
  Claim C4. Called with both bounds, \<open>ask_int\<close> returns only values within them; and
  whatever the bounds, it returns only by accepting a line whose stripped text is an
  optional minus sign followed by digits only, the value returned being the integer
  that this text denotes. The digits are the decimal digits of any script: the line
  of the two Arabic-Indic digits one and two (code points 1633, 1634) is accepted and
  gives 12, as the witness shows.
\<close>

theorem ask_int_returns_valid_integer:
  "(ask_int prompt (Some lo) (Some hi) w = (Return n, w') \<longrightarrow> lo \<le> n \<and> n \<le> hi) \<and>
   (ask_int prompt minv maxv w = (Return m, v) \<longrightarrow>
      (\<exists>skipped line. stdin w = skipped @ line # stdin v \<and>
         spec_integer_text (strip line) \<and> py_int (strip line) = Return m))"
proof (intro conjI impI)
  assume "ask_int prompt (Some lo) (Some hi) w = (Return n, w')"
  then have "\<not> out_of_range (Some lo) (Some hi) n"
    using ask_int_accepts[OF refl] by blast
  then show "lo \<le> n" and "n \<le> hi"
    by (simp_all add: out_of_range_def)
next
  assume "ask_int prompt minv maxv w = (Return m, v)"
  then obtain skipped line where
    "stdin w = skipped @ line # stdin v" "py_int (strip line) = Return m"
    using ask_int_accepts[OF refl] by blast
  then show "\<exists>skipped line. stdin w = skipped @ line # stdin v \<and>
         spec_integer_text (strip line) \<and> py_int (strip line) = Return m"
    using py_int_spec_text by blast
qed

theorem ask_int_returns_valid_integer_witness:
  "ask_int (str ''Your guess: '') (Some 1) (Some 20)
     \<lparr>stdin = [str '''', str ''seven'', str ''42'', str '' -3 '', [32, 1633, 1634], str ''8''],
      stdout = [], scores_json = Absent\<rparr> =
     (Return 12,
      \<lparr>stdin = [str ''8''],
       stdout = [Prompt (str ''Your guess: ''), PleaseEnterValue,
                 Prompt (str ''Your guess: ''), NotAnInteger,
                 Prompt (str ''Your guess: ''), EnterAnInteger (Some (1, 20)),
                 Prompt (str ''Your guess: ''), EnterAnInteger (Some (1, 20)),
                 Prompt (str ''Your guess: '')],
       scores_json = Absent\<rparr>) \<and>
   (1 :: int) \<le> 12 \<and> (12 :: int) \<le> 20 \<and>
   (\<exists>skipped line.
      [str '''', str ''seven'', str ''42'', str '' -3 '', [32, 1633, 1634], str ''8''] =
        skipped @ line # [str ''8''] \<and>
      spec_integer_text (strip line) \<and> py_int (strip line) = Return 12)"
proof -
  let ?w = "\<lparr>stdin = [str '''', str ''seven'', str ''42'', str '' -3 '', [32, 1633, 1634], str ''8''],
      stdout = [], scores_json = Absent\<rparr>"
  let ?w' = "\<lparr>stdin = [str ''8''],
       stdout = [Prompt (str ''Your guess: ''), PleaseEnterValue,
                 Prompt (str ''Your guess: ''), NotAnInteger,
                 Prompt (str ''Your guess: ''), EnterAnInteger (Some (1, 20)),
                 Prompt (str ''Your guess: ''), EnterAnInteger (Some (1, 20)),
                 Prompt (str ''Your guess: '')],
       scores_json = Absent\<rparr>"
  have h: "ask_int (str ''Your guess: '') (Some 1) (Some 20) ?w = (Return 12, ?w')"
    by (simp add: ask_int.simps run_defs)
  have "(ask_int (str ''Your guess: '') (Some 1) (Some 20) ?w = (Return 12, ?w') \<longrightarrow>
           (1 :: int) \<le> 12 \<and> (12 :: int) \<le> 20) \<and>
        (ask_int (str ''Your guess: '') (Some 1) (Some 20) ?w = (Return 12, ?w') \<longrightarrow>
           (\<exists>skipped line. stdin ?w = skipped @ line # stdin ?w' \<and>
              spec_integer_text (strip line) \<and> py_int (strip line) = Return 12))"
    by (rule ask_int_returns_valid_integer)
  then have "\<exists>skipped line. stdin ?w = skipped @ line # stdin ?w' \<and>
              spec_integer_text (strip line) \<and> py_int (strip line) = Return 12"
    using h by blast
  then show ?thesis
    using h by simp
qed

text \<open>
  Claim C3 says that no input line can make \<open>ask_int\<close> raise. The guard of the source is
  \<open>str.isdigit\<close>, which also holds for the superscript digits, and \<open>int()\<close> rejects those:
  on the line made of the one character \<open>superscript two\<close> (code point 178) the
  \<open>ValueError\<close> of \<open>int(val)\<close> leaves \<open>ask_int\<close>.
\<close>

theorem ask_int_raises_on_superscript_digit:
  "ask_int prompt minv maxv \<lparr>stdin = [[178]], stdout = [], scores_json = f\<rparr> =
     (Raise ValueError, \<lparr>stdin = [], stdout = [Prompt prompt], scores_json = f\<rparr>)"
  by (simp add: ask_int.simps run_defs)

text \<open>
  The extent of that failure: \<open>ask_int\<close> raises only at the end of input, or when some
  line read holds a character that \<open>str.isdigit\<close> accepts and \<open>int()\<close> does not, or when a
  line is longer than the 4300 digits that \<open>int()\<close> takes.
\<close>

lemma py_int_raises_on_guarded:
  assumes "isdigit val \<or> (startswith_minus val \<and> isdigit (drop 1 val))"
    and "py_int val = Raise e"
  shows "(\<exists>c \<in> set val. isdigit_char c \<and> \<not> isdecimal_char c) \<or> 4300 < length val"
proof -
  have minus: "\<not> isdigit_char 45"
    by (simp add: run_defs)
  show ?thesis
  proof (cases "startswith_minus val")
    case False
    then have "isdigit val" and "\<not> list_all isdecimal_char val \<or> 4300 < length val"
      using assms by (auto simp: py_int_def isdigit_def split: if_splits)
    then show ?thesis
      by (auto simp: isdigit_def list_all_iff)
  next
    case True
    then obtain ds where val: "val = 45 # ds"
      by (cases val) (auto simp: startswith_minus_def)
    then have "\<not> isdigit val"
      using minus by (simp add: isdigit_def)
    then have "isdigit ds" and "\<not> list_all isdecimal_char ds \<or> 4300 < length ds"
      using assms True val by (auto simp: py_int_def isdigit_def split: if_splits)
    then show ?thesis
      using val by (auto simp: isdigit_def list_all_iff)
  qed
qed

lemma set_strip: "set (strip s) \<subseteq> set s"
proof -
  have "set (strip s) \<subseteq> set (dropWhile isspace s)"
    unfolding strip_def using set_dropWhileD by fastforce
  also have "\<dots> \<subseteq> set s"
    using set_dropWhileD by fastforce
  finally show ?thesis .
qed

lemma length_strip: "length (strip s) \<le> length s"
proof -
  have "length (strip s) = length (dropWhile isspace (rev (dropWhile isspace s)))"
    by (simp add: strip_def)
  also have "\<dots> \<le> length (rev (dropWhile isspace s))"
    by (rule length_dropWhile_le)
  also have "\<dots> = length (dropWhile isspace s)"
    by simp
  also have "\<dots> \<le> length s"
    by (rule length_dropWhile_le)
  finally show ?thesis .
qed

lemma ask_int_raises_only:
  "stdin w = ls \<Longrightarrow> ask_int prompt minv maxv w = (Raise e, w') \<Longrightarrow>
   e = EOFError \<or>
   (\<exists>line \<in> set ls. (\<exists>c \<in> set line. isdigit_char c \<and> \<not> isdecimal_char c) \<or> 4300 < length line)"
proof (induction ls arbitrary: w)
  case Nil
  then show ?case by (simp add: ask_int_Nil)
next
  case (Cons line rest)
  let ?w1 = "(print (Prompt prompt) w)\<lparr>stdin := rest\<rparr>"
  note unf = ask_int_Cons[OF Cons.prems(1), of prompt minv maxv]
  have later: "ask_int prompt minv maxv (print x ?w1) = (Raise e, w') \<Longrightarrow> ?case" for x
  proof -
    assume r: "ask_int prompt minv maxv (print x ?w1) = (Raise e, w')"
    have "stdin (print x ?w1) = rest" by simp
    from Cons.IH[OF this r] show ?case by auto
  qed
  show ?case
  proof (cases "strip line = []")
    case True
    then show ?thesis using Cons.prems(2) later by (simp add: unf Let_def)
  next
    case ne: False
    show ?thesis
    proof (cases "isdigit (strip line) \<or> (startswith_minus (strip line) \<and> isdigit (drop 1 (strip line)))")
      case False
      then have "ask_int prompt minv maxv w = ask_int prompt minv maxv (print NotAnInteger ?w1)"
        using ne by (simp only: unf Let_def if_False)
      then show ?thesis using Cons.prems(2) later by simp
    next
      case guard: True
      show ?thesis
      proof (cases "py_int (strip line)")
        case (Raise e')
        from py_int_raises_on_guarded[OF guard Raise]
        consider c where "c \<in> set (strip line)" "isdigit_char c" "\<not> isdecimal_char c"
          | "4300 < length (strip line)"
          by blast
        then show ?thesis
        proof cases
          case 1
          then have "c \<in> set line"
            using set_strip by blast
          then show ?thesis
            using 1 by auto
        next
          case 2
          then have "4300 < length line"
            using length_strip[of line] by simp
          then show ?thesis by simp
        qed
      next
        case (Return m)
        show ?thesis
        proof (cases "out_of_range minv maxv m")
          case True
          then show ?thesis using Cons.prems(2) later ne guard Return by (simp add: unf Let_def)
        next
          case False
          then show ?thesis using Cons.prems(2) ne guard Return by (simp add: unf Let_def)
        qed
      qed
    qed
  qed
qed


section \<open>Properties of \<open>choose_difficulty\<close>\<close>

lemma choose_difficulty_loop_Nil:
  "stdin w = [] \<Longrightarrow>
   choose_difficulty_loop w = (Raise EOFError, print (Prompt (str ''Enter 1/2/3/4: '')) w)"
  by (subst choose_difficulty_loop.simps) (simp add: input_Nil)

lemma choose_difficulty_loop_Cons:
  "stdin w = line # rest \<Longrightarrow>
   choose_difficulty_loop w =
     (let w1 = (print (Prompt (str ''Enter 1/2/3/4: '')) w)\<lparr>stdin := rest\<rparr>; choice = strip line in
      if choice = (str ''1'') then (Return ((str ''Easy''), 1, 10, 6), w1)
      else if choice = (str ''2'') then (Return ((str ''Medium''), 1, 50, 7), w1)
      else if choice = (str ''3'') then (Return ((str ''Hard''), 1, 100, 8), w1)
      else if choice = (str ''4'') then
        (case ask_int (str ''Enter lower bound (integer): '') None None w1 of
           (Raise e, w2) \<Rightarrow> (Raise e, w2)
         | (Return low, w2) \<Rightarrow>
             (case ask_int (str ''Enter upper bound (integer, > lower): '') None None w2 of
                (Raise e, w3) \<Rightarrow> (Raise e, w3)
              | (Return high, w3) \<Rightarrow>
                  if high \<le> low
                  then choose_difficulty_loop (print UpperBoundNotGreater w3)
                  else
                    (case ask_int (str ''Enter max attempts (>=1): '') (Some 1) None w3 of
                       (Raise e, w4) \<Rightarrow> (Raise e, w4)
                     | (Return max_attempts, w4) \<Rightarrow>
                         (Return ((str ''Custom''), low, high, max_attempts), w4))))
      else choose_difficulty_loop (print InvalidChoice w1))"
  by (subst choose_difficulty_loop.simps) (simp add: input_Cons Let_def)


lemma choose_difficulty_loop_scores_json:
  "scores_json (snd (choose_difficulty_loop w)) = scores_json w"
proof (induction "length (stdin w)" arbitrary: w rule: less_induct)
  case less
  show ?case
  proof (cases "stdin w")
    case Nil
    then show ?thesis by (simp add: choose_difficulty_loop_Nil)
  next
    case (Cons line rest)
    let ?w1 = "(print (Prompt (str ''Enter 1/2/3/4: '')) w)\<lparr>stdin := rest\<rparr>"
    note unf = choose_difficulty_loop_Cons[OF Cons]
    have later: "scores_json (snd (choose_difficulty_loop (print x v))) = scores_json w"
      if "scores_json v = scores_json w" and "\<exists>used. rest = used @ stdin v" for x v
    proof -
      from that obtain used where "rest = used @ stdin v" by blast
      then have "length (stdin (print x v)) < length (stdin w)"
        using Cons by simp
      from less.hyps[OF this] show ?thesis
        using that(1) by simp
    qed
    obtain r2 w2 where a2: "ask_int (str ''Enter lower bound (integer): '') None None ?w1 = (r2, w2)"
      by (cases "ask_int (str ''Enter lower bound (integer): '') None None ?w1")
    obtain r3 w3 where a3: "ask_int (str ''Enter upper bound (integer, > lower): '') None None w2 = (r3, w3)"
      by (cases "ask_int (str ''Enter upper bound (integer, > lower): '') None None w2")
    obtain r4 w4 where a4: "ask_int (str ''Enter max attempts (>=1): '') (Some 1) None w3 = (r4, w4)"
      by (cases "ask_int (str ''Enter max attempts (>=1): '') (Some 1) None w3")
    from ask_int_stdin_suffix[OF a2] obtain u2 where u2: "rest = u2 @ stdin w2" by auto
    from ask_int_stdin_suffix[OF a3] obtain u3 where u3: "stdin w2 = u3 @ stdin w3" by auto
    have suf3: "\<exists>used. rest = used @ stdin w3"
      using u2 u3 by (metis append.assoc)
    have s2: "scores_json w2 = scores_json w"
      using ask_int_scores_json[OF a2] by simp
    have s3: "scores_json w3 = scores_json w"
      using ask_int_scores_json[OF a3] s2 by simp
    have s4: "scores_json w4 = scores_json w"
      using ask_int_scores_json[OF a4] s3 by simp
    have l1: "scores_json (snd (choose_difficulty_loop (print InvalidChoice ?w1))) = scores_json w"
      by (rule later) simp_all
    have l3: "scores_json (snd (choose_difficulty_loop (print UpperBoundNotGreater w3))) = scores_json w"
      using s3 suf3 by (rule later)
    show ?thesis
      unfolding unf Let_def a2 a3 a4
      using l1 l3 s2 s3 s4 by (simp add: a2 a3 a4 split: result.split del: str_Cons str_Nil)
  qed
qed

lemma choose_difficulty_scores_json:
  "choose_difficulty w = (r, w') \<Longrightarrow> scores_json w' = scores_json w"
  using choose_difficulty_loop_scores_json[of "print DifficultyMenu w"]
  by (simp add: choose_difficulty_def)



section \<open>Properties of \<open>play_round\<close>\<close>

lemma guess_loop_scores_json:
  "scores_json (snd (guess_loop low high max_attempts secret used w)) = scores_json w"
proof (induction low high max_attempts secret used w rule: guess_loop.induct)
  case (1 low high max_attempts secret used w)
  obtain r w1 where a: "ask_int (guess_prompt (used + 1) max_attempts) (Some low) (Some high) w = (r, w1)"
    by (cases "ask_int (guess_prompt (used + 1) max_attempts) (Some low) (Some high) w")
  have s1: "scores_json w1 = scores_json w"
    using ask_int_scores_json[OF a] .
  show ?case
  proof (cases "used < max_attempts")
    case False
    then show ?thesis by (subst guess_loop.simps) simp
  next
    case True
    show ?thesis
    proof (cases r)
      case (Raise e)
      then show ?thesis using True a s1 by (subst guess_loop.simps) simp
    next
      case (Return guess)
      show ?thesis
      proof (cases "guess = secret")
        case True
        then show ?thesis using \<open>used < max_attempts\<close> a s1 Return
          by (subst guess_loop.simps) simp
      next
        case False
        from "1.IH"[OF \<open>used < max_attempts\<close> a[unfolded Return, symmetric] refl False]
        show ?thesis using \<open>used < max_attempts\<close> a s1 Return False
          by (subst guess_loop.simps) simp
      qed
    qed
  qed
qed

lemma ask_name_scores_json:
  "ask_name nm w = (r, w') \<Longrightarrow> scores_json w' = scores_json w"
  by (auto simp: ask_name_def input_def print_def split: if_splits list.splits)

lemma guess_loop_scores_json_eq:
  "guess_loop low high max_attempts secret used w = (r, w') \<Longrightarrow> scores_json w' = scores_json w"
  using guess_loop_scores_json[of low high max_attempts secret used w] by simp

lemma closeness_of_wrong_guess:
  "guess \<noteq> secret \<Longrightarrow>
   closeness_of low high secret guess =
     (if \<bar>secret - guess\<bar> \<le> max 1 ((high - low) div 20) then VeryClose
      else if \<bar>secret - guess\<bar> \<le> max 1 ((high - low) div 5) then Close
      else NoQualifier)"
  by (simp add: closeness_of_def Let_def)

text \<open>
  Claim C5. In the guessing loop, a guess \<open>guess\<close> accepted by \<open>ask_int\<close> that is not the
  secret lies within the bounds and makes the loop print the hint \<open>higher\<close> if
  \<open>guess < secret\<close> and \<open>lower\<close> otherwise, with the qualifier \<open>very close\<close> when the
  distance is at most \<open>max 1 (W div 20)\<close>, else \<open>close\<close> when it is at most
  \<open>max 1 (W div 5)\<close>, else none, where \<open>W = high - low\<close>; the loop then goes on with one
  more attempt used. With the range 1 to 10, the secret 7, six attempts and the guesses
  1, 5, 9, 7 the hints are higher, higher, lower and the round is won at attempt 4.
\<close>

theorem wrong_guess_hint:
  "(used < max_attempts \<and> guess \<noteq> secret \<and>
    ask_int (guess_prompt (used + 1) max_attempts) (Some low) (Some high) w = (Return guess, w1) \<longrightarrow>
      low \<le> guess \<and> guess \<le> high \<and>
      guess_loop low high max_attempts secret used w =
        guess_loop low high max_attempts secret (used + 1)
          (print (Nope (if guess < secret then Higher else Lower)
                       (if \<bar>secret - guess\<bar> \<le> max 1 ((high - low) div 20) then VeryClose
                        else if \<bar>secret - guess\<bar> \<le> max 1 ((high - low) div 5) then Close
                        else NoQualifier)) w1)) \<and>
   guess_loop 1 10 6 7 0 \<lparr>stdin = [(str ''1''), (str ''5''), (str ''9''), (str ''7'')], stdout = [], scores_json = f\<rparr> =
     (Return (True, 4),
      \<lparr>stdin = [],
       stdout = [Prompt (str ''[Attempt 1/6] Your guess: ''), Nope Higher NoQualifier,
                 Prompt (str ''[Attempt 2/6] Your guess: ''), Nope Higher NoQualifier,
                 Prompt (str ''[Attempt 3/6] Your guess: ''), Nope Lower NoQualifier,
                 Prompt (str ''[Attempt 4/6] Your guess: '')],
       scores_json = f\<rparr>)"
proof (intro conjI impI)
  assume a: "used < max_attempts \<and> guess \<noteq> secret \<and>
    ask_int (guess_prompt (used + 1) max_attempts) (Some low) (Some high) w = (Return guess, w1)"
  then have "\<not> out_of_range (Some low) (Some high) guess"
    using ask_int_accepts[OF refl] by blast
  then show "low \<le> guess" and "guess \<le> high"
    by (simp_all add: out_of_range_def)
  show "guess_loop low high max_attempts secret used w =
        guess_loop low high max_attempts secret (used + 1)
          (print (Nope (if guess < secret then Higher else Lower)
                       (if \<bar>secret - guess\<bar> \<le> max 1 ((high - low) div 20) then VeryClose
                        else if \<bar>secret - guess\<bar> \<le> max 1 ((high - low) div 5) then Close
                        else NoQualifier)) w1)"
    using a
    by (subst guess_loop.simps) (simp add: hint_of_def closeness_of_wrong_guess)
next
  show "guess_loop 1 10 6 7 0 \<lparr>stdin = [(str ''1''), (str ''5''), (str ''9''), (str ''7'')], stdout = [], scores_json = f\<rparr> =
     (Return (True, 4),
      \<lparr>stdin = [],
       stdout = [Prompt (str ''[Attempt 1/6] Your guess: ''), Nope Higher NoQualifier,
                 Prompt (str ''[Attempt 2/6] Your guess: ''), Nope Higher NoQualifier,
                 Prompt (str ''[Attempt 3/6] Your guess: ''), Nope Lower NoQualifier,
                 Prompt (str ''[Attempt 4/6] Your guess: '')],
       scores_json = f\<rparr>)"
    by (simp add: ask_int.simps choose_difficulty_loop.simps guess_loop.simps run_defs)
qed

theorem wrong_guess_hint_witness:
  "(0 :: int) < 6 \<and> (6 :: int) \<noteq> 7 \<and>
   ask_int (guess_prompt (0 + 1) 6) (Some 1) (Some 10)
     \<lparr>stdin = [(str ''6''), (str ''7'')], stdout = [], scores_json = Absent\<rparr> =
     (Return 6, \<lparr>stdin = [(str ''7'')], stdout = [Prompt (str ''[Attempt 1/6] Your guess: '')],
                 scores_json = Absent\<rparr>) \<and>
   guess_loop 1 10 6 7 0 \<lparr>stdin = [(str ''6''), (str ''7'')], stdout = [], scores_json = Absent\<rparr> =
     guess_loop 1 10 6 7 (0 + 1)
       (print (Nope Higher VeryClose)
          \<lparr>stdin = [(str ''7'')], stdout = [Prompt (str ''[Attempt 1/6] Your guess: '')],
           scores_json = Absent\<rparr>)"
proof -
  have h: "(0 :: int) < 6 \<and> (6 :: int) \<noteq> 7 \<and>
   ask_int (guess_prompt (0 + 1) 6) (Some 1) (Some 10)
     \<lparr>stdin = [(str ''6''), (str ''7'')], stdout = [], scores_json = Absent\<rparr> =
     (Return 6, \<lparr>stdin = [(str ''7'')], stdout = [Prompt (str ''[Attempt 1/6] Your guess: '')],
                 scores_json = Absent\<rparr>)"
    by (simp add: ask_int.simps choose_difficulty_loop.simps guess_loop.simps run_defs)
  show ?thesis
    using h wrong_guess_hint[THEN conjunct1, THEN mp, OF h] by simp
qed

text \<open>
  Claim C9. A round that ends lost leaves the backing file as it was; and if a round
  changes the file at all, the round was won and the change is the one \<open>save_score\<close> of
  that round.
\<close>

theorem lost_round_saves_nothing:
  assumes "play_round randint elapsed now nm w = (r, w')"
  shows "(r = Return (False, used, t, label) \<longrightarrow> scores_json w' = scores_json w) \<and>
         (scores_json w' \<noteq> scores_json w \<longrightarrow>
            (\<exists>used label player. r = Return (True, used, elapsed, label) \<and>
               scores_json w' = save_score now player used elapsed label (scores_json w)))"
proof -
  obtain r1 w1 where cd: "choose_difficulty w = (r1, w1)"
    by (cases "choose_difficulty w")
  have s1: "scores_json w1 = scores_json w"
    using choose_difficulty_scores_json[OF cd] .
  show ?thesis
  proof (cases r1)
    case (Raise e)
    then show ?thesis using assms cd s1 by (simp add: play_round_def)
  next
    case (Return tup)
    obtain lab low high max_attempts where tup: "tup = (lab, low, high, max_attempts)"
      by (cases tup) auto
    show ?thesis
    proof (cases "high < low")
      case True
      then show ?thesis using assms cd s1 Return tup by (simp add: play_round_def)
    next
      case False
      obtain r2 w2 where gl: "guess_loop low high max_attempts (randint low high) 0
                                (print (Picked low high max_attempts) w1) = (r2, w2)"
        by (cases "guess_loop low high max_attempts (randint low high) 0
                     (print (Picked low high max_attempts) w1)")
      have s2: "scores_json w2 = scores_json w"
        using guess_loop_scores_json_eq[OF gl] s1 by simp
      show ?thesis
      proof (cases r2)
        case (Raise e)
        then show ?thesis using assms cd s2 Return tup False gl by (simp add: play_round_def)
      next
        case res: (Return res)
        obtain guessed n where res_eq: "res = (guessed, n)"
          by (cases res) auto
        show ?thesis
        proof (cases guessed)
          case lost: False
          then have "r = Return (False, n, elapsed, lab)"
            and "w' = print BlankLine (print (OutOfAttempts (randint low high)) w2)"
            using assms cd Return tup False gl res res_eq by (simp_all add: play_round_def)
          then show ?thesis using s2 by simp
        next
          case won: True
          obtain r3 w3 where an: "ask_name nm
                (print (Summary n (round2 elapsed) lab) (print (Correct (randint low high)) w2)) = (r3, w3)"
            by (cases "ask_name nm
                (print (Summary n (round2 elapsed) lab) (print (Correct (randint low high)) w2))")
          have s3: "scores_json w3 = scores_json w"
            using ask_name_scores_json[OF an] s2 by simp
          show ?thesis
          proof (cases r3)
            case (Raise e)
            then show ?thesis
              using assms cd Return tup False gl res res_eq won an s3 by (simp add: play_round_def)
          next
            case (Return player)
            then have "r = Return (True, n, elapsed, lab)"
              and "w' = print BlankLine
                     (w3\<lparr>scores_json := save_score now player n elapsed lab (scores_json w3)\<rparr>)"
              using assms cd \<open>r1 = Return tup\<close> tup False gl res res_eq won an
              by (simp_all add: play_round_def)
            then show ?thesis using s3 by auto
          qed
        qed
      qed
    qed
  qed
qed

theorem lost_round_saves_nothing_witness:
  "play_round (\<lambda>low high. 7) (2345 / 100) 1700000000 (Some (str ''Player''))
     \<lparr>stdin = [(str ''1''), (str ''1''), (str ''2''), (str ''3''), (str ''4''), (str ''5''), (str ''6'')], stdout = [],
      scores_json = Corrupt\<rparr> =
     (Return (False, 6, 2345 / 100, (str ''Easy'')),
      \<lparr>stdin = [],
       stdout = [DifficultyMenu, Prompt (str ''Enter 1/2/3/4: ''), Picked 1 10 6,
                 Prompt (str ''[Attempt 1/6] Your guess: ''), Nope Higher NoQualifier,
                 Prompt (str ''[Attempt 2/6] Your guess: ''), Nope Higher NoQualifier,
                 Prompt (str ''[Attempt 3/6] Your guess: ''), Nope Higher NoQualifier,
                 Prompt (str ''[Attempt 4/6] Your guess: ''), Nope Higher NoQualifier,
                 Prompt (str ''[Attempt 5/6] Your guess: ''), Nope Higher NoQualifier,
                 Prompt (str ''[Attempt 6/6] Your guess: ''), Nope Higher VeryClose,
                 OutOfAttempts 7, BlankLine],
       scores_json = Corrupt\<rparr>) \<and>
   scores_json
     (snd (play_round (\<lambda>low high. 7) (2345 / 100) 1700000000 (Some (str ''Player''))
        \<lparr>stdin = [(str ''1''), (str ''1''), (str ''2''), (str ''3''), (str ''4''), (str ''5''), (str ''6'')], stdout = [],
         scores_json = Corrupt\<rparr>)) = Corrupt \<and>
   scores_json
     (snd (play_round (\<lambda>low high. 7) (2345 / 100) 1700000000 None
        \<lparr>stdin = [(str ''1''), (str ''7''), (str '''')], stdout = [], scores_json = Absent\<rparr>)) \<noteq> Absent \<and>
   (\<exists>used label player.
      fst (play_round (\<lambda>low high. 7) (2345 / 100) 1700000000 None
        \<lparr>stdin = [(str ''1''), (str ''7''), (str '''')], stdout = [], scores_json = Absent\<rparr>) =
        Return (True, used, 2345 / 100, label) \<and>
      scores_json
        (snd (play_round (\<lambda>low high. 7) (2345 / 100) 1700000000 None
          \<lparr>stdin = [(str ''1''), (str ''7''), (str '''')], stdout = [], scores_json = Absent\<rparr>)) =
        save_score 1700000000 player used (2345 / 100) label Absent)"
proof -
  let ?w = "\<lparr>stdin = [(str ''1''), (str ''1''), (str ''2''), (str ''3''), (str ''4''), (str ''5''), (str ''6'')], stdout = [],
      scores_json = Corrupt\<rparr>"
  let ?w' = "\<lparr>stdin = [],
       stdout = [DifficultyMenu, Prompt (str ''Enter 1/2/3/4: ''), Picked 1 10 6,
                 Prompt (str ''[Attempt 1/6] Your guess: ''), Nope Higher NoQualifier,
                 Prompt (str ''[Attempt 2/6] Your guess: ''), Nope Higher NoQualifier,
                 Prompt (str ''[Attempt 3/6] Your guess: ''), Nope Higher NoQualifier,
                 Prompt (str ''[Attempt 4/6] Your guess: ''), Nope Higher NoQualifier,
                 Prompt (str ''[Attempt 5/6] Your guess: ''), Nope Higher NoQualifier,
                 Prompt (str ''[Attempt 6/6] Your guess: ''), Nope Higher VeryClose,
                 OutOfAttempts 7, BlankLine],
       scores_json = Corrupt\<rparr>"
  let ?v = "\<lparr>stdin = [(str ''1''), (str ''7''), (str '''')], stdout = [], scores_json = Absent\<rparr>"
  let ?won = "play_round (\<lambda>low high. 7) (2345 / 100) 1700000000 None ?v"
  have h: "play_round (\<lambda>low high. 7) (2345 / 100) 1700000000 (Some (str ''Player'')) ?w =
             (Return (False, 6, 2345 / 100, (str ''Easy'')), ?w')"
    by (simp add: ask_int.simps choose_difficulty_loop.simps guess_loop.simps run_defs)
  have lost: "scores_json ?w' = scores_json ?w"
    using lost_round_saves_nothing[OF h, of 6 "2345 / 100" "(str ''Easy'')"] by blast
  have changed: "scores_json (snd ?won) \<noteq> scores_json ?v"
    by (simp add: ask_int.simps choose_difficulty_loop.simps guess_loop.simps run_defs)
  have "?won = (fst ?won, snd ?won)"
    by simp
  from lost_round_saves_nothing[OF this, of 1 "2345 / 100" "(str ''Easy'')"] changed
  have won: "\<exists>used label player. fst ?won = Return (True, used, 2345 / 100, label) \<and>
      scores_json (snd ?won) = save_score 1700000000 player used (2345 / 100) label (scores_json ?v)"
    by blast
  show ?thesis
    using h lost changed won by simp
qed


section \<open>Properties of \<open>show_leaderboard\<close>\<close>

text \<open>
  Claim C8. \<open>load_scores\<close> gives the empty list when the backing file is absent and when
  it cannot be read or parsed; it is a total function into lists, so no error comes out
  of it. With the file absent, \<open>show_leaderboard\<close> prints the message for an empty
  leaderboard and nothing else.
\<close>

theorem load_scores_fails_open:
  "load_scores Absent = [] \<and> load_scores Corrupt = [] \<and>
   show_leaderboard (w\<lparr>scores_json := Absent\<rparr>) = print NoLeaderboard (w\<lparr>scores_json := Absent\<rparr>) \<and>
   stdout (show_leaderboard (w\<lparr>scores_json := Absent\<rparr>)) = stdout w @ [NoLeaderboard]"
  by (simp add: load_scores_def show_leaderboard_def print_def)

end
